theory Spec2Isabelle
  imports Main
begin

section \<open>Conversation session service\<close>

text \<open>
  A shallow embedding of \<^verbatim>\<open>ConversationsService\<close>
  (\<^verbatim>\<open>src/conversations/conversations.service.ts\<close>), of the two Mongoose schemas it
  works on and of the MongoDB calls it issues. The two collections are lists of documents
  in insertion order; the unique indexes the schemas declare are enforced by the storage
  calls, as the storage engine does, and are not built into the types.
\<close>

subsection \<open>Request bodies (the DTO classes)\<close>

text \<open>
  A JavaScript \<^verbatim>\<open>Date\<close> is its time value, the number of milliseconds since the
  epoch. The \<^verbatim>\<open>timestamp\<close> of a \<^verbatim>\<open>CreateEventDto\<close> is a string that
  \<^verbatim>\<open>addEvent\<close> hands to \<^verbatim>\<open>new Date\<close>; the record below holds the instant the
  string denotes, \<open>None\<close> for a string that denotes none. The payload is opaque to the
  service: a type variable; its TypeScript type has no \<^verbatim>\<open>undefined\<close>.
\<close>

type_synonym timestamp = int

datatype EventType = MESSAGE_SENT | MESSAGE_RECEIVED | USER_JOINED | USER_LEFT

record CreateSessionDto =
  sessionId :: string
  language :: string

record 'p CreateEventDto =
  eventId :: string
  type :: EventType
  payload :: 'p
  timestamp :: "int option"

text \<open>
  \<^verbatim>\<open>PaginationDto\<close>: the file of the class is not among the sources;
  \<^verbatim>\<open>getSession\<close> reads two properties of it, \<^verbatim>\<open>limit\<close> and
  \<^verbatim>\<open>offset\<close>, each with a default for \<^verbatim>\<open>undefined\<close> (here \<open>None\<close>), and
  hands them to the cursor as numbers. They are counts; a negative skip or limit, which the
  driver rejects or reinterprets, is outside this model.
\<close>

record PaginationDto =
  limit :: "nat option"
  offset :: "nat option"

subsection \<open>Stored documents (the schema classes)\<close>

text \<open>
  Both schemas are declared with \<^verbatim>\<open>timestamps: true\<close>: Mongoose keeps the two
  stamps \<^verbatim>\<open>createdAt\<close> and \<^verbatim>\<open>updatedAt\<close> on every document, beside the
  declared properties. The generated \<^verbatim>\<open>_id\<close> is not modelled.
\<close>

datatype SessionStatus = ACTIVE | COMPLETED

record 'p Event =
  eventId :: string
  sessionId :: string
  type :: EventType
  payload :: 'p
  timestamp :: timestamp
  createdAt :: timestamp
  updatedAt :: timestamp

record Session =
  sessionId :: string
  status :: SessionStatus
  language :: string
  startedAt :: timestamp
  endedAt :: "timestamp option"
  createdAt :: timestamp
  updatedAt :: timestamp

text \<open>The two collections behind \<^verbatim>\<open>sessionModel\<close> and \<^verbatim>\<open>eventModel\<close>.\<close>

record 'p store =
  sessionModel :: "Session list"
  eventModel :: "'p Event list"

subsection \<open>Errors\<close>

text \<open>
  A rejection of a storage call carries the server's error code, when there is one;
  \<^verbatim>\<open>11000\<close> is the duplicate-key error of a unique index. The service raises two
  kinds of HTTP exception, each with its message.
\<close>

datatype MongoError = MongoError (code: "int option")

definition duplicate_key :: MongoError where
  "duplicate_key = MongoError (Some 11000)"

text \<open>
  The error with which Mongoose rejects a document that fails its schema; it has no
  \<^verbatim>\<open>code\<close>.
\<close>

definition validation_error :: MongoError where
  "validation_error = MongoError None"

datatype HttpException =
    NotFoundException string
  | InternalServerErrorException string

subsection \<open>The storage calls\<close>

text \<open>
  Each call is one atomic step of the storage engine on one collection. The two calls the
  service wraps in \<^verbatim>\<open>try\<close> take a \<open>fault\<close>: the error with which the call is
  rejected for a reason of its own (a lost connection, a time-out, a lost race between
  concurrent upserts), or \<open>None\<close> when the engine serves the call. A rejected call
  leaves the collection as it was.
\<close>

fun update_first :: "('a \<Rightarrow> bool) \<Rightarrow> ('a \<Rightarrow> 'a) \<Rightarrow> 'a list \<Rightarrow> 'a list" where
  "update_first P f [] = []"
| "update_first P f (x # xs) = (if P x then f x # xs else x # update_first P f xs)"

text \<open>\<^verbatim>\<open>sessionModel.findOne({ sessionId })\<close>\<close>

definition session_findOne :: "string \<Rightarrow> Session list \<Rightarrow> Session option" where
  "session_findOne sid docs = find (\<lambda>s. Session.sessionId s = sid) docs"

text \<open>
  \<^verbatim>\<open>sessionModel.findOneAndUpdate({ sessionId }, { $set }, { new: true })\<close>: the
  first matching document is updated in place and returned as updated; without a match
  nothing is written and the result is \<^verbatim>\<open>null\<close>.
\<close>

definition session_findOneAndUpdate ::
  "string \<Rightarrow> (Session \<Rightarrow> Session) \<Rightarrow> Session list \<Rightarrow> Session option \<times> Session list" where
  "session_findOneAndUpdate sid upd docs =
     (map_option upd (session_findOne sid docs),
      update_first (\<lambda>s. Session.sessionId s = sid) upd docs)"

text \<open>
  The same call with \<^verbatim>\<open>{ upsert: true, new: true }\<close>: without a match the
  document \<open>ins\<close> (the filter's fields and those of \<^verbatim>\<open>$setOnInsert\<close>) is
  inserted and returned.
\<close>

definition session_findOneAndUpdate_upsert ::
  "MongoError option \<Rightarrow> string \<Rightarrow> (Session \<Rightarrow> Session) \<Rightarrow> Session \<Rightarrow> Session list
     \<Rightarrow> (MongoError + Session) \<times> Session list" where
  "session_findOneAndUpdate_upsert fault sid upd ins docs =
     (case fault of
        Some error \<Rightarrow> (Inl error, docs)
      | None \<Rightarrow>
          (case session_findOne sid docs of
             Some s \<Rightarrow> (Inr (upd s), update_first (\<lambda>s. Session.sessionId s = sid) upd docs)
           | None \<Rightarrow> (Inr ins, docs @ [ins])))"

text \<open>\<^verbatim>\<open>eventModel.findOne({ sessionId, eventId })\<close>\<close>

definition event_findOne :: "string \<Rightarrow> string \<Rightarrow> 'p Event list \<Rightarrow> 'p Event option" where
  "event_findOne sid eid docs =
     find (\<lambda>e. Event.sessionId e = sid \<and> Event.eventId e = eid) docs"

text \<open>
  \<^verbatim>\<open>new Date(string)\<close>: the time value of the instant the string denotes, when it
  denotes one within 8.64e15 milliseconds of the epoch; \<open>None\<close> is the invalid date.
\<close>

definition new_Date :: "int option \<Rightarrow> timestamp option" where
  "new_Date parsed =
     (case parsed of
        None \<Rightarrow> None
      | Some t \<Rightarrow> (if \<bar>t\<bar> \<le> 8640000000000000 then Some t else None))"

text \<open>
  \<^verbatim>\<open>eventModel.create(doc)\<close>. Mongoose validates the document against the schema
  before it sends the insert: \<^verbatim>\<open>eventId\<close> and \<^verbatim>\<open>sessionId\<close> are required
  strings, which the empty string is not (the type is of the enumeration and the payload is
  there by their types; the date is cast by the caller, see \<^verbatim>\<open>addEvent\<close>). Then the
  compound unique index on \<^verbatim>\<open>{ sessionId, eventId }\<close> rejects a second document with
  the same pair with a duplicate-key error; otherwise the document is appended.
\<close>

definition event_create ::
  "MongoError option \<Rightarrow> 'p Event \<Rightarrow> 'p Event list \<Rightarrow> (MongoError + 'p Event) \<times> 'p Event list" where
  "event_create fault doc docs =
     (if Event.eventId doc = [] \<or> Event.sessionId doc = [] then (Inl validation_error, docs)
      else
        (case fault of
           Some error \<Rightarrow> (Inl error, docs)
         | None \<Rightarrow>
             (case event_findOne (Event.sessionId doc) (Event.eventId doc) docs of
                Some e \<Rightarrow> (Inl duplicate_key, docs)
              | None \<Rightarrow> (Inr doc, docs @ [doc]))))"

text \<open>
  \<^verbatim>\<open>cursor.limit(n)\<close>: MongoDB reads a limit of 0 as no limit.
\<close>

definition cursor_limit :: "nat \<Rightarrow> 'a list \<Rightarrow> 'a list" where
  "cursor_limit n docs = (if n = 0 then docs else take n docs)"

text \<open>
  \<^verbatim>\<open>eventModel.find({ sessionId }).sort({ timestamp: 1 }).skip(offset).limit(limit)\<close>.
  Documents with equal timestamps keep their storage order.
\<close>

definition event_find :: "string \<Rightarrow> nat \<Rightarrow> nat \<Rightarrow> 'p Event list \<Rightarrow> 'p Event list" where
  "event_find sid skip lim docs =
     cursor_limit lim
       (drop skip (sort_key Event.timestamp (filter (\<lambda>e. Event.sessionId e = sid) docs)))"

text \<open>\<^verbatim>\<open>eventModel.countDocuments({ sessionId })\<close>\<close>

definition event_countDocuments :: "string \<Rightarrow> 'p Event list \<Rightarrow> nat" where
  "event_countDocuments sid docs = length (filter (\<lambda>e. Event.sessionId e = sid) docs)"

subsection \<open>The service\<close>

text \<open>
  Every operation takes the store and returns its result with the store it leaves.
  \<open>now\<close> is the clock reading of the call (\<^verbatim>\<open>new Date()\<close>, and the instant
  Mongoose stamps the documents with). Logging is not modelled.
\<close>

definition not_found :: "string \<Rightarrow> HttpException" where
  "not_found sid = NotFoundException (''Session '' @ sid @ '' not found'')"

text \<open>
  \<^verbatim>\<open>createSession\<close>: one upsert inside \<^verbatim>\<open>try\<close>. The update document holds
  \<^verbatim>\<open>$setOnInsert\<close> only, so on a match none of the declared properties is written;
  what Mongoose adds for \<^verbatim>\<open>timestamps: true\<close> is \<^verbatim>\<open>updatedAt\<close> on every update
  and \<^verbatim>\<open>createdAt\<close> on insert. An update is not validated against the schema. The
  \<^verbatim>\<open>catch\<close> does not look at the error.
\<close>

definition createSession ::
  "'p store \<Rightarrow> timestamp \<Rightarrow> MongoError option \<Rightarrow> CreateSessionDto
     \<Rightarrow> (HttpException + Session) \<times> 'p store" where
  "createSession st now fault dto =
     (case session_findOneAndUpdate_upsert fault (CreateSessionDto.sessionId dto)
             (\<lambda>s. s\<lparr>Session.updatedAt := now\<rparr>)
             \<lparr>Session.sessionId = CreateSessionDto.sessionId dto,
              status = ACTIVE,
              language = CreateSessionDto.language dto,
              startedAt = now,
              endedAt = None,
              createdAt = now,
              updatedAt = now\<rparr>
             (sessionModel st) of
        (Inr s, docs) \<Rightarrow> (Inr s, st\<lparr>sessionModel := docs\<rparr>)
      | (Inl error, docs) \<Rightarrow>
          (Inl (InternalServerErrorException ''Failed to create session''),
           st\<lparr>sessionModel := docs\<rparr>))"

text \<open>
  \<^verbatim>\<open>addEvent\<close>: the session is looked up first; the insert is inside \<^verbatim>\<open>try\<close>,
  and the \<^verbatim>\<open>catch\<close> reads the stored event again when the error code is 11000. The
  document is built with \<^verbatim>\<open>new Date(dto.timestamp)\<close>; an invalid date fails the cast
  of the field and \<^verbatim>\<open>create\<close> rejects the document with a validation error before
  anything is sent.
\<close>

definition addEvent ::
  "'p store \<Rightarrow> timestamp \<Rightarrow> MongoError option \<Rightarrow> string \<Rightarrow> 'p CreateEventDto
     \<Rightarrow> (HttpException + 'p Event) \<times> 'p store" where
  "addEvent st now fault sid dto =
     (case session_findOne sid (sessionModel st) of
        None \<Rightarrow> (Inl (not_found sid), st)
      | Some s \<Rightarrow>
          (case (case new_Date (CreateEventDto.timestamp dto) of
                   None \<Rightarrow> (Inl validation_error, eventModel st)
                 | Some date \<Rightarrow>
                     event_create fault
                       \<lparr>Event.eventId = CreateEventDto.eventId dto,
                        sessionId = sid,
                        type = CreateEventDto.type dto,
                        payload = CreateEventDto.payload dto,
                        timestamp = date,
                        createdAt = now,
                        updatedAt = now\<rparr>
                       (eventModel st)) of
             (Inr event, docs) \<Rightarrow> (Inr event, st\<lparr>eventModel := docs\<rparr>)
           | (Inl error, docs) \<Rightarrow>
               (if code error = Some 11000 then
                  (case event_findOne sid (CreateEventDto.eventId dto) docs of
                     None \<Rightarrow>
                       (Inl (InternalServerErrorException
                               ''Duplicate key error but event not found''),
                        st\<lparr>eventModel := docs\<rparr>)
                   | Some existingEvent \<Rightarrow> (Inr existingEvent, st\<lparr>eventModel := docs\<rparr>))
                else
                  (Inl (InternalServerErrorException ''Failed to add event''),
                   st\<lparr>eventModel := docs\<rparr>))))"

text \<open>
  \<^verbatim>\<open>getSession\<close>: the session, one page of its events and the pagination data. The
  defaults of the destructuring apply to \<^verbatim>\<open>undefined\<close> only; the count is a query of
  its own over all events of the session.
\<close>

record Pagination =
  total :: nat
  limit :: nat
  offset :: nat
  hasMore :: bool
  nextOffset :: "nat option"

record 'p SessionPage =
  session :: Session
  events :: "'p Event list"
  pagination :: Pagination

definition getSession ::
  "'p store \<Rightarrow> string \<Rightarrow> PaginationDto \<Rightarrow> (HttpException + 'p SessionPage) \<times> 'p store" where
  "getSession st sid paginationDto =
     (case session_findOne sid (sessionModel st) of
        None \<Rightarrow> (Inl (not_found sid), st)
      | Some s \<Rightarrow>
          (let limit = (case PaginationDto.limit paginationDto of None \<Rightarrow> 50 | Some l \<Rightarrow> l);
               offset = (case PaginationDto.offset paginationDto of None \<Rightarrow> 0 | Some k \<Rightarrow> k);
               events = event_find sid offset limit (eventModel st);
               total = event_countDocuments sid (eventModel st);
               hasMore = (offset + limit < total);
               nextOffset = (if hasMore then Some (offset + limit) else None)
           in (Inr \<lparr>session = s,
                    events = events,
                    pagination = \<lparr>total = total, limit = limit, offset = offset,
                                  hasMore = hasMore, nextOffset = nextOffset\<rparr>\<rparr>,
               st)))"

text \<open>
  \<^verbatim>\<open>completeSession\<close>: one update with \<^verbatim>\<open>$set\<close> and without upsert;
  \<^verbatim>\<open>null\<close> from it is the only failure the operation raises.
\<close>

definition completeSession ::
  "'p store \<Rightarrow> timestamp \<Rightarrow> string \<Rightarrow> (HttpException + Session) \<times> 'p store" where
  "completeSession st now sid =
     (case session_findOneAndUpdate sid
             (\<lambda>s. s\<lparr>status := COMPLETED, endedAt := Some now, Session.updatedAt := now\<rparr>)
             (sessionModel st) of
        (None, docs) \<Rightarrow> (Inl (not_found sid), st\<lparr>sessionModel := docs\<rparr>)
      | (Some s, docs) \<Rightarrow> (Inr s, st\<lparr>sessionModel := docs\<rparr>))"

subsection \<open>The controller\<close>

text \<open>
  \<^verbatim>\<open>ConversationsController\<close> has one route for each operation of the service and
  passes the request on unchanged. A request carries what the route reads: the clock and
  the fate of the guarded storage call beside the parameters of the request. Requests are
  served one after the other, each on the store the one before left; the responses are
  dropped here, the results of the single operations are stated on the operations.
\<close>

datatype 'p Request =
    PostSession timestamp "MongoError option" CreateSessionDto
  | PostEvent timestamp "MongoError option" string "'p CreateEventDto"
  | GetSession string PaginationDto
  | PostComplete timestamp string

fun serve :: "'p store \<Rightarrow> 'p Request \<Rightarrow> 'p store" where
  "serve st (PostSession now fault dto) = snd (createSession st now fault dto)"
| "serve st (PostEvent now fault sid dto) = snd (addEvent st now fault sid dto)"
| "serve st (GetSession sid paginationDto) = snd (getSession st sid paginationDto)"
| "serve st (PostComplete now sid) = snd (completeSession st now sid)"

fun run :: "'p store \<Rightarrow> 'p Request list \<Rightarrow> 'p store" where
  "run st [] = st"
| "run st (r # rs) = run (serve st r) rs"

subsection \<open>How a session may change\<close>

text \<open>
  The lifecycle of a stored session: its identifier, its start and its language stay, and
  its status stays or goes from active to completed. A sessions collection evolves into
  another when every document of the first has such a successor in the second and the
  identifiers of the second are unique.
\<close>

definition session_evolves :: "Session \<Rightarrow> Session \<Rightarrow> bool" where
  "session_evolves s s' \<longleftrightarrow>
     Session.sessionId s' = Session.sessionId s \<and>
     startedAt s' = startedAt s \<and>
     Session.language s' = Session.language s \<and>
     (status s' = status s \<or> (status s = ACTIVE \<and> status s' = COMPLETED))"

definition sessions_evolve :: "Session list \<Rightarrow> Session list \<Rightarrow> bool" where
  "sessions_evolve docs docs' \<longleftrightarrow>
     distinct (map Session.sessionId docs') \<and>
     (\<forall>s \<in> set docs. \<exists>s' \<in> set docs'. session_evolves s s')"

subsection \<open>Sample data\<close>

text \<open>
  One session \<^verbatim>\<open>s1\<close> and its first \<open>n\<close> events, with increasing timestamps.
\<close>

definition sample_session :: Session where
  "sample_session =
     \<lparr>Session.sessionId = ''s1'', status = ACTIVE, language = ''en'', startedAt = 1000,
      endedAt = None, createdAt = 1000, updatedAt = 1000\<rparr>"

definition sample_event :: "nat \<Rightarrow> string Event" where
  "sample_event i =
     \<lparr>Event.eventId = replicate (Suc i) CHR ''e'', sessionId = ''s1'', type = MESSAGE_SENT,
      payload = ''hello'', timestamp = 2000 + int i, createdAt = 3000, updatedAt = 3000\<rparr>"

definition sample_store :: "nat \<Rightarrow> string store" where
  "sample_store n = \<lparr>sessionModel = [sample_session], eventModel = map sample_event [0..<n]\<rparr>"

section \<open>Properties of the storage calls\<close>

lemma update_first_absent: "find P xs = None \<Longrightarrow> update_first P f xs = xs"
  by (induction xs) (auto split: if_splits)

lemma find_update_first_same:
  "(\<And>x. P x \<Longrightarrow> P (f x)) \<Longrightarrow> find P (update_first P f xs) = map_option f (find P xs)"
  by (induction xs) auto

lemma find_update_first_other:
  "(\<And>x. Q (f x) = Q x) \<Longrightarrow> (\<And>x. P x \<Longrightarrow> \<not> Q x) \<Longrightarrow> find Q (update_first P f xs) = find Q xs"
  by (induction xs) auto

lemma map_update_first: "(\<And>x. g (f x) = g x) \<Longrightarrow> map g (update_first P f xs) = map g xs"
  by (induction xs) auto

lemma session_findOne_sessionId:
  "session_findOne sid docs = Some s \<Longrightarrow> Session.sessionId s = sid"
  by (auto simp: session_findOne_def find_Some_iff)

lemma session_findOne_None_iff:
  "session_findOne sid docs = None \<longleftrightarrow> sid \<notin> Session.sessionId ` set docs"
  by (auto simp: session_findOne_def find_None_iff)

lemma session_findOne_update_other:
  assumes "\<And>s. Session.sessionId (f s) = Session.sessionId s" and "sid' \<noteq> sid"
  shows "session_findOne sid' (update_first (\<lambda>s. Session.sessionId s = sid) f docs)
           = session_findOne sid' docs"
  unfolding session_findOne_def
  by (rule find_update_first_other) (use assms in auto)

lemma session_findOne_update_same:
  assumes "\<And>s. Session.sessionId (f s) = Session.sessionId s"
  shows "session_findOne sid (update_first (\<lambda>s. Session.sessionId s = sid) f docs)
           = map_option f (session_findOne sid docs)"
  unfolding session_findOne_def
  by (rule find_update_first_same) (use assms in auto)

lemma event_findOne_key:
  "event_findOne sid eid docs = Some e \<Longrightarrow> Event.sessionId e = sid \<and> Event.eventId e = eid \<and> e \<in> set docs"
  by (auto simp: event_findOne_def find_Some_iff)

lemma event_findOne_append:
  "event_findOne sid eid (docs @ ys) =
     (case event_findOne sid eid docs of Some e \<Rightarrow> Some e | None \<Rightarrow> event_findOne sid eid ys)"
  by (induction docs) (auto simp: event_findOne_def)

subsection \<open>Sorting and paging\<close>

lemma sorted_page:
  "sorted (map f (take l (drop k (sort_key f xs))))"
proof -
  have "sorted (map f (sort_key f xs))" by (rule sorted_sort_key)
  then have "sorted (take l (drop k (map f (sort_key f xs))))"
    by (intro sorted_wrt_take sorted_wrt_drop)
  then show ?thesis by (simp add: take_map drop_map)
qed

lemma before_split:
  assumes "sorted_wrt (<) (map f xs)" and "a \<in> set (take n xs)" and "b \<in> set (drop n xs)"
  shows "f a < f b"
proof -
  have "sorted_wrt (<) (map f (take n xs) @ map f (drop n xs))"
    using assms(1) by (simp flip: map_append)
  then show ?thesis
    using assms(2,3) by (auto simp: sorted_wrt_append)
qed

lemma rest_of_take: "set xs - set (take n xs) \<subseteq> set (drop n xs)"
proof -
  have "set xs = set (take n xs) \<union> set (drop n xs)"
    by (metis append_take_drop_id set_append)
  then show ?thesis by blast
qed

lemma rest_of_drop: "set xs - set (drop n xs) \<subseteq> set (take n xs)"
proof -
  have "set xs = set (take n xs) \<union> set (drop n xs)"
    by (metis append_take_drop_id set_append)
  then show ?thesis by blast
qed

lemma strictly_sorted_sort_key:
  assumes "distinct (map f xs)"
  shows "sorted_wrt (<) (map f (sort_key f xs))"
proof -
  have "distinct (map f (sort_key f xs))"
    using assms by (simp add: distinct_map)
  then show ?thesis
    by (simp add: strict_sorted_iff)
qed

subsection \<open>The operations, case by case\<close>

lemma getSession_found:
  assumes "session_findOne sid (sessionModel st) = Some s"
  shows "getSession st sid \<lparr>PaginationDto.limit = Some l, offset = Some k\<rparr> =
    (Inr \<lparr>session = s,
          events = event_find sid k l (eventModel st),
          pagination =
            \<lparr>total = event_countDocuments sid (eventModel st),
             limit = l, offset = k,
             hasMore = (k + l < event_countDocuments sid (eventModel st)),
             nextOffset = (if k + l < event_countDocuments sid (eventModel st)
                           then Some (k + l) else None)\<rparr>\<rparr>, st)"
  unfolding getSession_def Let_def using assms by simp

lemma getSession_store: "snd (getSession st sid paginationDto) = st"
  by (simp add: getSession_def Let_def split: option.split)

lemma completeSession_found:
  assumes "session_findOne sid (sessionModel st) = Some s"
  shows "completeSession st now sid =
     (Inr (s\<lparr>status := COMPLETED, endedAt := Some now, Session.updatedAt := now\<rparr>),
      st\<lparr>sessionModel := update_first (\<lambda>s. Session.sessionId s = sid)
             (\<lambda>s. s\<lparr>status := COMPLETED, endedAt := Some now, Session.updatedAt := now\<rparr>)
             (sessionModel st)\<rparr>)"
  using assms by (simp add: completeSession_def session_findOneAndUpdate_def)

lemma completeSession_absent:
  assumes "session_findOne sid (sessionModel st) = None"
  shows "completeSession st now sid = (Inl (not_found sid), st)"
  using assms
  by (simp add: completeSession_def session_findOneAndUpdate_def session_findOne_def
        update_first_absent)

lemma sessionModel_addEvent:
  "sessionModel (snd (addEvent st now fault sid dto)) = sessionModel st"
  by (simp add: addEvent_def event_create_def split: option.split sum.split prod.split)

subsection \<open>Sessions evolve, events stay\<close>

lemma session_evolves_refl: "session_evolves s s"
  by (simp add: session_evolves_def)

lemma session_evolves_trans:
  "session_evolves s t \<Longrightarrow> session_evolves t u \<Longrightarrow> session_evolves s u"
  by (auto simp: session_evolves_def)

lemma evolves_update_first:
  assumes "\<And>s. session_evolves s (f s)"
  shows "\<forall>s \<in> set docs. \<exists>s' \<in> set (update_first P f docs). session_evolves s s'"
  using assms by (induction docs) (auto intro: session_evolves_refl)

lemma sessions_evolve_update_first:
  assumes "\<And>s. session_evolves s (f s)" and "distinct (map Session.sessionId docs)"
  shows "sessions_evolve docs (update_first P f docs)"
proof -
  have "map Session.sessionId (update_first P f docs) = map Session.sessionId docs"
    using assms(1) by (intro map_update_first) (simp add: session_evolves_def)
  then show ?thesis
    using assms evolves_update_first[of f docs P] by (simp add: sessions_evolve_def)
qed

lemma sessions_evolve_refl:
  "distinct (map Session.sessionId docs) \<Longrightarrow> sessions_evolve docs docs"
  by (auto simp: sessions_evolve_def intro: session_evolves_refl)

lemma sessions_evolve_trans:
  assumes "sessions_evolve a b" and "sessions_evolve b c"
  shows "sessions_evolve a c"
  unfolding sessions_evolve_def
proof (intro conjI ballI)
  show "distinct (map Session.sessionId c)"
    using assms(2) by (simp add: sessions_evolve_def)
next
  fix s assume "s \<in> set a"
  then obtain t where t: "t \<in> set b" "session_evolves s t"
    using assms(1) by (auto simp: sessions_evolve_def)
  then obtain u where "u \<in> set c" "session_evolves t u"
    using assms(2) by (auto simp: sessions_evolve_def)
  with t show "\<exists>s' \<in> set c. session_evolves s s'"
    by (blast intro: session_evolves_trans)
qed

lemma sessions_evolve_createSession:
  assumes "distinct (map Session.sessionId (sessionModel st))"
  shows "sessions_evolve (sessionModel st) (sessionModel (snd (createSession st now fault dto)))"
proof (cases fault)
  case (Some error)
  then show ?thesis
    using assms
    by (simp add: createSession_def session_findOneAndUpdate_upsert_def sessions_evolve_refl)
next
  case None
  show ?thesis
  proof (cases "session_findOne (CreateSessionDto.sessionId dto) (sessionModel st)")
    case absent: None
    then have "CreateSessionDto.sessionId dto \<notin> Session.sessionId ` set (sessionModel st)"
      by (simp add: session_findOne_None_iff)
    then show ?thesis
      using assms None absent
      by (auto simp: createSession_def session_findOneAndUpdate_upsert_def sessions_evolve_def
            intro: session_evolves_refl)
  next
    case (Some s)
    have "sessions_evolve (sessionModel st)
            (update_first (\<lambda>s. Session.sessionId s = CreateSessionDto.sessionId dto)
               (\<lambda>s. s\<lparr>Session.updatedAt := now\<rparr>) (sessionModel st))"
      using assms by (intro sessions_evolve_update_first) (simp_all add: session_evolves_def)
    then show ?thesis
      using None Some by (simp add: createSession_def session_findOneAndUpdate_upsert_def)
  qed
qed

lemma sessions_evolve_completeSession:
  assumes "distinct (map Session.sessionId (sessionModel st))"
  shows "sessions_evolve (sessionModel st) (sessionModel (snd (completeSession st now sid)))"
proof -
  have step: "session_evolves s (s\<lparr>status := COMPLETED, endedAt := Some now, Session.updatedAt := now\<rparr>)" for s
    by (cases "status s") (simp_all add: session_evolves_def)
  have "sessions_evolve (sessionModel st)
            (update_first (\<lambda>s. Session.sessionId s = sid)
               (\<lambda>s. s\<lparr>status := COMPLETED, endedAt := Some now, Session.updatedAt := now\<rparr>)
               (sessionModel st))"
    using assms step by (intro sessions_evolve_update_first)
  then show ?thesis
    by (simp add: completeSession_def session_findOneAndUpdate_def split: option.split)
qed

lemma sessions_evolve_serve:
  assumes "distinct (map Session.sessionId (sessionModel st))"
  shows "sessions_evolve (sessionModel st) (sessionModel (serve st r))"
proof (cases r)
  case (PostSession now fault dto)
  then show ?thesis using assms by (simp add: sessions_evolve_createSession)
next
  case (PostEvent now fault sid dto)
  then show ?thesis using assms by (simp add: sessionModel_addEvent sessions_evolve_refl)
next
  case (GetSession sid paginationDto)
  then show ?thesis using assms by (simp add: getSession_store sessions_evolve_refl)
next
  case (PostComplete now sid)
  then show ?thesis using assms by (simp add: sessions_evolve_completeSession)
qed

lemma sessions_evolve_run:
  assumes "distinct (map Session.sessionId (sessionModel st))"
  shows "sessions_evolve (sessionModel st) (sessionModel (run st requests))"
  using assms
proof (induction requests arbitrary: st)
  case Nil
  then show ?case by (simp add: sessions_evolve_refl)
next
  case (Cons r rs)
  have step: "sessions_evolve (sessionModel st) (sessionModel (serve st r))"
    using Cons.prems by (rule sessions_evolve_serve)
  then have "distinct (map Session.sessionId (sessionModel (serve st r)))"
    by (simp add: sessions_evolve_def)
  then have "sessions_evolve (sessionModel (serve st r)) (sessionModel (run (serve st r) rs))"
    by (rule Cons.IH)
  with step show ?case
    by (auto intro: sessions_evolve_trans)
qed

lemma event_findOne_run:
  assumes "event_findOne sid eid (eventModel st) = Some e"
  shows "event_findOne sid eid (eventModel (run st requests)) = Some e"
  using assms
proof (induction requests arbitrary: st)
  case Nil
  then show ?case by simp
next
  case (Cons r rs)
  have "event_findOne sid eid (eventModel (serve st r)) = Some e"
  proof (cases r)
    case (PostSession now fault dto)
    then show ?thesis
      using Cons.prems
      by (simp add: createSession_def session_findOneAndUpdate_upsert_def
            split: option.split)
  next
    case (PostEvent now fault sid' dto)
    then show ?thesis
      using Cons.prems
      by (simp add: addEvent_def event_create_def event_findOne_append
            split: option.split)
  next
    case (GetSession sid' paginationDto)
    then show ?thesis using Cons.prems by (simp add: getSession_store)
  next
    case (PostComplete now sid')
    then show ?thesis
      using Cons.prems
      by (simp add: completeSession_def session_findOneAndUpdate_def split: option.split)
  qed
  then show ?case by (simp add: Cons.IH)
qed

subsection \<open>The sample store\<close>

lemma sample_session_found:
  "session_findOne ''s1'' (sessionModel (sample_store n)) = Some sample_session"
  by (simp add: sample_store_def sample_session_def session_findOne_def)

lemma sample_session_only:
  "Session.sessionId ` set (sessionModel (sample_store n)) = {''s1''}"
  by (simp add: sample_store_def sample_session_def)

lemma sample_events_of_session:
  "filter (\<lambda>e. Event.sessionId e = ''s1'') (eventModel (sample_store n)) = map sample_event [0..<n]"
  by (simp add: sample_store_def filter_map comp_def sample_event_def)

lemma sample_timestamps_distinct: "distinct (map Event.timestamp (map sample_event [0..<n]))"
  by (simp add: distinct_map comp_def sample_event_def inj_on_def)

section \<open>The claims\<close>

text \<open>
  Claim C1. \<^verbatim>\<open>createSession\<close> is idempotent. When a session with the identifier of
  the request is stored and the upsert is served, the call returns that session: its
  identifier, status, language, start and end are those stored, whatever language the
  request names, no document is added, no other session and no event is touched. The one
  field written is \<^verbatim>\<open>updatedAt\<close>, the stamp Mongoose refreshes on every update and
  which is not a declared property of the session. When no such session is stored, the call
  appends and returns a fresh one: active, started now, with the language of the request.
\<close>

theorem createSession_idempotent:
  "(\<forall>s. session_findOne (CreateSessionDto.sessionId dto) (sessionModel st) = Some s \<longrightarrow>
      (\<exists>r st'. createSession st now None dto = (Inr r, st') \<and>
         r = s\<lparr>Session.updatedAt := now\<rparr> \<and>
         Session.sessionId r = Session.sessionId s \<and>
         status r = status s \<and>
         Session.language r = Session.language s \<and>
         startedAt r = startedAt s \<and>
         endedAt r = endedAt s \<and>
         session_findOne (CreateSessionDto.sessionId dto) (sessionModel st') = Some r \<and>
         map Session.sessionId (sessionModel st') = map Session.sessionId (sessionModel st) \<and>
         (\<forall>sid'. sid' \<noteq> CreateSessionDto.sessionId dto \<longrightarrow>
            session_findOne sid' (sessionModel st') = session_findOne sid' (sessionModel st)) \<and>
         eventModel st' = eventModel st)) \<and>
   (session_findOne (CreateSessionDto.sessionId dto) (sessionModel st) = None \<longrightarrow>
      createSession st now None dto =
        (Inr \<lparr>Session.sessionId = CreateSessionDto.sessionId dto, status = ACTIVE,
              language = CreateSessionDto.language dto, startedAt = now, endedAt = None,
              createdAt = now, updatedAt = now\<rparr>,
         st\<lparr>sessionModel := sessionModel st @
              [\<lparr>Session.sessionId = CreateSessionDto.sessionId dto, status = ACTIVE,
                language = CreateSessionDto.language dto, startedAt = now, endedAt = None,
                createdAt = now, updatedAt = now\<rparr>]\<rparr>))"
proof (intro conjI allI impI)
  fix s
  assume found: "session_findOne (CreateSessionDto.sessionId dto) (sessionModel st) = Some s"
  let ?sid = "CreateSessionDto.sessionId dto"
  let ?upd = "\<lambda>s. s\<lparr>Session.updatedAt := now\<rparr>"
  let ?docs = "update_first (\<lambda>s. Session.sessionId s = ?sid) ?upd (sessionModel st)"
  have run: "createSession st now None dto = (Inr (?upd s), st\<lparr>sessionModel := ?docs\<rparr>)"
    using found by (simp add: createSession_def session_findOneAndUpdate_upsert_def)
  have same: "session_findOne ?sid ?docs = Some (?upd s)"
    using found by (simp add: session_findOne_update_same)
  have ids: "map Session.sessionId ?docs = map Session.sessionId (sessionModel st)"
    by (simp add: map_update_first)
  have others: "\<forall>sid'. sid' \<noteq> ?sid \<longrightarrow> session_findOne sid' ?docs = session_findOne sid' (sessionModel st)"
    by (simp add: session_findOne_update_other)
  show "\<exists>r st'. createSession st now None dto = (Inr r, st') \<and>
         r = s\<lparr>Session.updatedAt := now\<rparr> \<and>
         Session.sessionId r = Session.sessionId s \<and>
         status r = status s \<and>
         Session.language r = Session.language s \<and>
         startedAt r = startedAt s \<and>
         endedAt r = endedAt s \<and>
         session_findOne (CreateSessionDto.sessionId dto) (sessionModel st') = Some r \<and>
         map Session.sessionId (sessionModel st') = map Session.sessionId (sessionModel st) \<and>
         (\<forall>sid'. sid' \<noteq> CreateSessionDto.sessionId dto \<longrightarrow>
            session_findOne sid' (sessionModel st') = session_findOne sid' (sessionModel st)) \<and>
         eventModel st' = eventModel st"
    using run same ids others by simp
next
  assume "session_findOne (CreateSessionDto.sessionId dto) (sessionModel st) = None"
  then show "createSession st now None dto =
        (Inr \<lparr>Session.sessionId = CreateSessionDto.sessionId dto, status = ACTIVE,
              language = CreateSessionDto.language dto, startedAt = now, endedAt = None,
              createdAt = now, updatedAt = now\<rparr>,
         st\<lparr>sessionModel := sessionModel st @
              [\<lparr>Session.sessionId = CreateSessionDto.sessionId dto, status = ACTIVE,
                language = CreateSessionDto.language dto, startedAt = now, endedAt = None,
                createdAt = now, updatedAt = now\<rparr>]\<rparr>)"
    by (simp add: createSession_def session_findOneAndUpdate_upsert_def)
qed

text \<open>
  At the sample store: a second creation of \<^verbatim>\<open>s1\<close> in French returns the stored
  English session, and the creation of \<^verbatim>\<open>s2\<close> returns a fresh one.
\<close>

theorem createSession_idempotent_witness:
  "session_findOne ''s1'' (sessionModel (sample_store 0)) = Some sample_session \<and>
   fst (createSession (sample_store 0) 5000 None \<lparr>CreateSessionDto.sessionId = ''s1'', language = ''fr''\<rparr>)
     = Inr (sample_session\<lparr>Session.updatedAt := 5000\<rparr>) \<and>
   Session.language (sample_session\<lparr>Session.updatedAt := 5000\<rparr>) = ''en'' \<and>
   session_findOne ''s2'' (sessionModel (sample_store 0)) = None \<and>
   fst (createSession (sample_store 0) 5000 None \<lparr>CreateSessionDto.sessionId = ''s2'', language = ''fr''\<rparr>)
     = Inr \<lparr>Session.sessionId = ''s2'', status = ACTIVE, language = ''fr'', startedAt = 5000,
            endedAt = None, createdAt = 5000, updatedAt = 5000\<rparr>"
proof -
  have absent: "session_findOne ''s2'' (sessionModel (sample_store 0)) = None"
    by (simp add: sample_store_def sample_session_def session_findOne_def)
  show ?thesis
    using sample_session_found[of 0] absent
      createSession_idempotent[where st = "sample_store 0" and now = 5000 and dto =
        "\<lparr>CreateSessionDto.sessionId = ''s1'', language = ''fr''\<rparr>"]
      createSession_idempotent[where st = "sample_store 0" and now = 5000 and dto =
        "\<lparr>CreateSessionDto.sessionId = ''s2'', language = ''fr''\<rparr>"]
    by (auto simp: sample_session_def)
qed

text \<open>
  Claim C2. For an existing session and a pair of session and event identifier already
  stored, \<^verbatim>\<open>addEvent\<close> meets the rejection by the unique index, returns the stored
  event as a success and leaves the store as it was, whatever type, payload and timestamp
  the retried request carries. A first write is a success too, it stores the event of the
  request, and every later request with the same identifier returns that same event. The
  requests are those the validation of \<^verbatim>\<open>CreateEventDto\<close> lets through: the event
  identifier is not empty and the timestamp is a date (the session identifier of a stored
  event is not empty either). A request that is not is answered with the internal error
  \<^verbatim>\<open>Failed to add event\<close>, and the store is left as it was there too.
\<close>

theorem addEvent_first_write_wins:
  assumes "session_findOne sid (sessionModel st) = Some s"
  shows
  "(sid \<noteq> [] \<and> CreateEventDto.eventId dto \<noteq> [] \<and>
    new_Date (CreateEventDto.timestamp dto) \<noteq> None \<longrightarrow>
      (\<forall>e. event_findOne sid (CreateEventDto.eventId dto) (eventModel st) = Some e \<longrightarrow>
            addEvent st now None sid dto = (Inr e, st)) \<and>
      (event_findOne sid (CreateEventDto.eventId dto) (eventModel st) = None \<longrightarrow>
         (\<exists>e st'. addEvent st now None sid dto = (Inr e, st') \<and>
            Event.eventId e = CreateEventDto.eventId dto \<and>
            Event.sessionId e = sid \<and>
            Event.type e = CreateEventDto.type dto \<and>
            Event.payload e = CreateEventDto.payload dto \<and>
            new_Date (CreateEventDto.timestamp dto) = Some (Event.timestamp e) \<and>
            eventModel st' = eventModel st @ [e] \<and>
            sessionModel st' = sessionModel st \<and>
            (\<forall>now' dto'. CreateEventDto.eventId dto' = CreateEventDto.eventId dto \<and>
                 new_Date (CreateEventDto.timestamp dto') \<noteq> None \<longrightarrow>
               addEvent st' now' None sid dto' = (Inr e, st'))))) \<and>
   (sid = [] \<or> CreateEventDto.eventId dto = [] \<or>
    new_Date (CreateEventDto.timestamp dto) = None \<longrightarrow>
      addEvent st now fault sid dto =
        (Inl (InternalServerErrorException ''Failed to add event''), st))"
proof (intro conjI impI allI)
  fix e
  assume valid: "sid \<noteq> [] \<and> CreateEventDto.eventId dto \<noteq> [] \<and>
    new_Date (CreateEventDto.timestamp dto) \<noteq> None"
    and stored: "event_findOne sid (CreateEventDto.eventId dto) (eventModel st) = Some e"
  from valid obtain date where "new_Date (CreateEventDto.timestamp dto) = Some date"
    by auto
  with assms valid stored show "addEvent st now None sid dto = (Inr e, st)"
    by (simp add: addEvent_def event_create_def duplicate_key_def)
next
  assume valid: "sid \<noteq> [] \<and> CreateEventDto.eventId dto \<noteq> [] \<and>
    new_Date (CreateEventDto.timestamp dto) \<noteq> None"
    and fresh: "event_findOne sid (CreateEventDto.eventId dto) (eventModel st) = None"
  from valid obtain date where date: "new_Date (CreateEventDto.timestamp dto) = Some date"
    by auto
  let ?e = "\<lparr>Event.eventId = CreateEventDto.eventId dto, sessionId = sid,
             type = CreateEventDto.type dto, payload = CreateEventDto.payload dto,
             timestamp = date, createdAt = now, updatedAt = now\<rparr>"
  let ?st = "st\<lparr>eventModel := eventModel st @ [?e]\<rparr>"
  have first: "addEvent st now None sid dto = (Inr ?e, ?st)"
    using assms valid fresh date by (simp add: addEvent_def event_create_def)
  have stored: "event_findOne sid (CreateEventDto.eventId dto) (eventModel ?st) = Some ?e"
    using fresh by (simp add: event_findOne_append) (simp add: event_findOne_def)
  have replay: "addEvent ?st now' None sid dto' = (Inr ?e, ?st)"
    if same: "CreateEventDto.eventId dto' = CreateEventDto.eventId dto"
      and dated: "new_Date (CreateEventDto.timestamp dto') \<noteq> None" for now' dto'
  proof -
    from dated obtain date' where "new_Date (CreateEventDto.timestamp dto') = Some date'"
      by auto
    with assms valid stored same show ?thesis
      by (simp add: addEvent_def event_create_def duplicate_key_def)
  qed
  show "\<exists>e st'. addEvent st now None sid dto = (Inr e, st') \<and>
            Event.eventId e = CreateEventDto.eventId dto \<and>
            Event.sessionId e = sid \<and>
            Event.type e = CreateEventDto.type dto \<and>
            Event.payload e = CreateEventDto.payload dto \<and>
            new_Date (CreateEventDto.timestamp dto) = Some (Event.timestamp e) \<and>
            eventModel st' = eventModel st @ [e] \<and>
            sessionModel st' = sessionModel st \<and>
            (\<forall>now' dto'. CreateEventDto.eventId dto' = CreateEventDto.eventId dto \<and>
                 new_Date (CreateEventDto.timestamp dto') \<noteq> None \<longrightarrow>
               addEvent st' now' None sid dto' = (Inr e, st'))"
    using first replay date by (intro exI[of _ ?e] exI[of _ ?st]) simp
next
  assume invalid: "sid = [] \<or> CreateEventDto.eventId dto = [] \<or>
    new_Date (CreateEventDto.timestamp dto) = None"
  show "addEvent st now fault sid dto =
        (Inl (InternalServerErrorException ''Failed to add event''), st)"
  proof (cases "new_Date (CreateEventDto.timestamp dto)")
    case None
    with assms show ?thesis
      by (simp add: addEvent_def validation_error_def)
  next
    case (Some date)
    with invalid have "sid = [] \<or> CreateEventDto.eventId dto = []" by simp
    with assms Some show ?thesis
      by (auto simp: addEvent_def event_create_def validation_error_def)
  qed
qed

text \<open>
  At the sample store with one event: a replay with another type, payload and timestamp
  returns the stored event, a new identifier is stored, and a request whose timestamp is
  no date is refused.
\<close>

theorem addEvent_first_write_wins_witness:
  "session_findOne ''s1'' (sessionModel (sample_store 1)) = Some sample_session \<and>
   new_Date (Some 8000) = Some 8000 \<and>
   event_findOne ''s1'' ''e'' (eventModel (sample_store 1)) = Some (sample_event 0) \<and>
   addEvent (sample_store 1) 9000 None ''s1''
     \<lparr>CreateEventDto.eventId = ''e'', type = USER_LEFT, payload = ''bye'', timestamp = Some 8000\<rparr>
     = (Inr (sample_event 0), sample_store 1) \<and>
   Event.type (sample_event 0) = MESSAGE_SENT \<and>
   event_findOne ''s1'' ''ee'' (eventModel (sample_store 1)) = None \<and>
   (\<exists>e st'. addEvent (sample_store 1) 9000 None ''s1''
       \<lparr>CreateEventDto.eventId = ''ee'', type = USER_LEFT, payload = ''bye'', timestamp = Some 8000\<rparr>
       = (Inr e, st') \<and> Event.payload e = ''bye'' \<and> Event.timestamp e = 8000) \<and>
   addEvent (sample_store 1) 9000 None ''s1''
     \<lparr>CreateEventDto.eventId = ''e'', type = USER_LEFT, payload = ''bye'', timestamp = None\<rparr>
     = (Inl (InternalServerErrorException ''Failed to add event''), sample_store 1)"
proof -
  let ?replay = "\<lparr>CreateEventDto.eventId = ''e'', type = USER_LEFT, payload = ''bye'',
                  timestamp = Some 8000\<rparr>"
  let ?fresh = "\<lparr>CreateEventDto.eventId = ''ee'', type = USER_LEFT, payload = ''bye'',
                 timestamp = Some 8000\<rparr>"
  let ?undated = "\<lparr>CreateEventDto.eventId = ''e'', type = USER_LEFT, payload = ''bye'',
                   timestamp = None :: int option\<rparr>"
  have found: "session_findOne ''s1'' (sessionModel (sample_store 1)) = Some sample_session"
    by (rule sample_session_found)
  have date: "new_Date (Some 8000) = Some 8000"
    by (simp add: new_Date_def)
  have stored: "event_findOne ''s1'' ''e'' (eventModel (sample_store 1)) = Some (sample_event 0)"
    by (simp add: sample_store_def sample_event_def event_findOne_def)
  have fresh: "event_findOne ''s1'' ''ee'' (eventModel (sample_store 1)) = None"
    by (simp add: sample_store_def sample_event_def event_findOne_def)
  have kind: "Event.type (sample_event 0) = MESSAGE_SENT"
    by (simp add: sample_event_def)
  note replay = addEvent_first_write_wins[OF found, where dto = ?replay and now = 9000
      and fault = None]
  note first = addEvent_first_write_wins[OF found, where dto = ?fresh and now = 9000
      and fault = None]
  note refused = addEvent_first_write_wins[OF found, where dto = ?undated and now = 9000
      and fault = None]
  have a: "addEvent (sample_store 1) 9000 None ''s1'' ?replay = (Inr (sample_event 0), sample_store 1)"
    using replay[THEN conjunct1] stored date by simp
  from first[THEN conjunct1] fresh date
  obtain e st' where "addEvent (sample_store 1) 9000 None ''s1'' ?fresh = (Inr e, st')"
    "Event.payload e = ''bye''" "Some 8000 = Some (Event.timestamp e)"
    by auto
  then have b: "\<exists>e st'. addEvent (sample_store 1) 9000 None ''s1'' ?fresh = (Inr e, st') \<and>
      Event.payload e = ''bye'' \<and> Event.timestamp e = 8000"
    by auto
  have c: "addEvent (sample_store 1) 9000 None ''s1'' ?undated
     = (Inl (InternalServerErrorException ''Failed to add event''), sample_store 1)"
    using refused[THEN conjunct2] by (simp add: new_Date_def)
  from found date stored a kind fresh b c show ?thesis by (intro conjI)
qed


text \<open>
  Claim C4. \<^verbatim>\<open>completeSession\<close> is one unconditional field-set: for a stored session
  it returns and stores the session with status completed and end now, whatever its status
  was, leaving the other sessions and the events; a later call succeeds again and moves the
  end to its own instant (last call wins). It fails with \<^verbatim>\<open>NotFoundException\<close>
  exactly when no session has the identifier, and then the store is as it was.
\<close>

theorem completeSession_last_call_wins:
  "(sid \<notin> Session.sessionId ` set (sessionModel st) \<longrightarrow>
      completeSession st now sid =
        (Inl (NotFoundException (''Session '' @ sid @ '' not found'')), st)) \<and>
   (\<forall>s. session_findOne sid (sessionModel st) = Some s \<longrightarrow>
      (\<exists>st'. completeSession st now sid =
                (Inr (s\<lparr>status := COMPLETED, endedAt := Some now, Session.updatedAt := now\<rparr>), st') \<and>
         session_findOne sid (sessionModel st') =
           Some (s\<lparr>status := COMPLETED, endedAt := Some now, Session.updatedAt := now\<rparr>) \<and>
         (\<forall>sid'. sid' \<noteq> sid \<longrightarrow>
            session_findOne sid' (sessionModel st') = session_findOne sid' (sessionModel st)) \<and>
         eventModel st' = eventModel st \<and>
         (\<forall>later. \<exists>st''. completeSession st' later sid =
            (Inr (s\<lparr>status := COMPLETED, endedAt := Some later, Session.updatedAt := later\<rparr>),
             st'')))) \<and>
   ((\<exists>message. fst (completeSession st now sid) = Inl (NotFoundException message)) \<longleftrightarrow>
      sid \<notin> Session.sessionId ` set (sessionModel st))"
proof (intro conjI allI impI)
  assume "sid \<notin> Session.sessionId ` set (sessionModel st)"
  then have "session_findOne sid (sessionModel st) = None"
    by (simp add: session_findOne_None_iff)
  then show "completeSession st now sid =
        (Inl (NotFoundException (''Session '' @ sid @ '' not found'')), st)"
    by (simp add: completeSession_absent not_found_def)
next
  fix s
  assume found: "session_findOne sid (sessionModel st) = Some s"
  let ?set = "\<lambda>t s. s\<lparr>status := COMPLETED, endedAt := Some t, Session.updatedAt := t\<rparr>"
  let ?st = "st\<lparr>sessionModel :=
               update_first (\<lambda>s. Session.sessionId s = sid) (?set now) (sessionModel st)\<rparr>"
  have run: "completeSession st now sid = (Inr (?set now s), ?st)"
    using found by (rule completeSession_found)
  have stored: "session_findOne sid (sessionModel ?st) = Some (?set now s)"
    using found by (simp add: session_findOne_update_same)
  have others: "\<forall>sid'. sid' \<noteq> sid \<longrightarrow>
      session_findOne sid' (sessionModel ?st) = session_findOne sid' (sessionModel st)"
    by (simp add: session_findOne_update_other)
  have again: "\<exists>st''. completeSession ?st later sid = (Inr (?set later s), st'')" for later
    using completeSession_found[OF stored, of later] by simp
  show "\<exists>st'. completeSession st now sid =
                (Inr (s\<lparr>status := COMPLETED, endedAt := Some now, Session.updatedAt := now\<rparr>), st') \<and>
         session_findOne sid (sessionModel st') =
           Some (s\<lparr>status := COMPLETED, endedAt := Some now, Session.updatedAt := now\<rparr>) \<and>
         (\<forall>sid'. sid' \<noteq> sid \<longrightarrow>
            session_findOne sid' (sessionModel st') = session_findOne sid' (sessionModel st)) \<and>
         eventModel st' = eventModel st \<and>
         (\<forall>later. \<exists>st''. completeSession st' later sid =
            (Inr (s\<lparr>status := COMPLETED, endedAt := Some later, Session.updatedAt := later\<rparr>),
             st''))"
    using run stored others again by (intro exI[of _ ?st]) simp
next
  show "(\<exists>message. fst (completeSession st now sid) = Inl (NotFoundException message)) \<longleftrightarrow>
      sid \<notin> Session.sessionId ` set (sessionModel st)"
  proof (cases "session_findOne sid (sessionModel st)")
    case None
    then show ?thesis
      by (simp add: completeSession_absent not_found_def session_findOne_None_iff)
  next
    case (Some s)
    then have "sid \<in> Session.sessionId ` set (sessionModel st)"
      using session_findOne_None_iff[of sid "sessionModel st"] by simp
    then show ?thesis
      using Some by (simp add: completeSession_found)
  qed
qed

text \<open>
  At the sample store: \<^verbatim>\<open>s1\<close> is completed, \<^verbatim>\<open>s2\<close> is not found.
\<close>

theorem completeSession_last_call_wins_witness:
  "session_findOne ''s1'' (sessionModel (sample_store 0)) = Some sample_session \<and>
   fst (completeSession (sample_store 0) 7000 ''s1'')
     = Inr (sample_session\<lparr>status := COMPLETED, endedAt := Some 7000, Session.updatedAt := 7000\<rparr>) \<and>
   ''s2'' \<notin> Session.sessionId ` set (sessionModel (sample_store 0)) \<and>
   completeSession (sample_store 0) 7000 ''s2''
     = (Inl (NotFoundException ''Session s2 not found''), sample_store 0)"
proof -
  note known = completeSession_last_call_wins[where sid = "''s1''" and st = "sample_store 0"
      and now = 7000]
  note unknown = completeSession_last_call_wins[where sid = "''s2''" and st = "sample_store 0"
      and now = 7000]
  have found: "session_findOne ''s1'' (sessionModel (sample_store 0)) = Some sample_session"
    by (rule sample_session_found)
  have absent: "''s2'' \<notin> Session.sessionId ` set (sessionModel (sample_store 0))"
    by (simp add: sample_session_only)
  from known[THEN conjunct2, THEN conjunct1] found
  obtain st' where "completeSession (sample_store 0) 7000 ''s1'' =
      (Inr (sample_session\<lparr>status := COMPLETED, endedAt := Some 7000,
              Session.updatedAt := 7000\<rparr>), st')"
    by blast
  then have completed: "fst (completeSession (sample_store 0) 7000 ''s1'')
     = Inr (sample_session\<lparr>status := COMPLETED, endedAt := Some 7000, Session.updatedAt := 7000\<rparr>)"
    by simp
  from unknown[THEN conjunct1] absent
  have "completeSession (sample_store 0) 7000 ''s2''
     = (Inl (NotFoundException (''Session '' @ ''s2'' @ '' not found'')), sample_store 0)"
    by (rule mp)
  then have missing: "completeSession (sample_store 0) 7000 ''s2''
     = (Inl (NotFoundException ''Session s2 not found''), sample_store 0)"
    by simp
  from found completed absent missing show ?thesis by (intro conjI)
qed

text \<open>
  Claim C5. When no session has the identifier, \<^verbatim>\<open>addEvent\<close> fails with
  \<^verbatim>\<open>NotFoundException\<close> and the store, its events included, is as it was; no storage
  call on the events is reached.
\<close>

theorem addEvent_unknown_session:
  assumes "sid \<notin> Session.sessionId ` set (sessionModel st)"
  shows "addEvent st now fault sid dto = (Inl (NotFoundException (''Session '' @ sid @ '' not found'')), st)"
proof -
  have "session_findOne sid (sessionModel st) = None"
    using assms by (simp add: session_findOne_None_iff)
  then show ?thesis by (simp add: addEvent_def not_found_def)
qed

text \<open>
  At the sample store with one event, for the unknown session \<^verbatim>\<open>s2\<close>.
\<close>

theorem addEvent_unknown_session_witness:
  "''s2'' \<notin> Session.sessionId ` set (sessionModel (sample_store 1)) \<and>
   addEvent (sample_store 1) 9000 None ''s2''
     \<lparr>CreateEventDto.eventId = ''e'', type = USER_LEFT, payload = ''bye'', timestamp = Some 8000\<rparr>
     = (Inl (NotFoundException ''Session s2 not found''), sample_store 1)"
proof -
  have absent: "''s2'' \<notin> Session.sessionId ` set (sessionModel (sample_store 1))"
    by (simp add: sample_session_only)
  show ?thesis
    using absent addEvent_unknown_session[where st = "sample_store 1" and sid = "''s2''"
        and now = 9000 and fault = None and dto =
        "\<lparr>CreateEventDto.eventId = ''e'', type = USER_LEFT, payload = ''bye'', timestamp = Some 8000\<rparr>"]
    by simp
qed

text \<open>
  Claim C6, as stated, fails at a limit of 0: MongoDB reads \<^verbatim>\<open>limit(0)\<close> as no
  limit, so the read returns every event from the offset on, here two events for a limit
  of 0, and reports \<^verbatim>\<open>hasMore\<close> with \<^verbatim>\<open>nextOffset\<close> 0.
\<close>

theorem getSession_limit_zero_counterexample:
  "getSession (sample_store 2) ''s1'' \<lparr>PaginationDto.limit = Some 0, offset = Some 0\<rparr>
     = (Inr \<lparr>session = sample_session,
             events = [sample_event 0, sample_event 1],
             pagination = \<lparr>total = 2, limit = 0, offset = 0, hasMore = True,
                           nextOffset = Some 0\<rparr>\<rparr>,
        sample_store 2) \<and>
   \<not> length [sample_event 0, sample_event 1] \<le> (0::nat)"
proof -
  have two: "[0..<2] = [0, Suc 0]" by (simp add: upt_rec)
  have evs: "event_find ''s1'' 0 0 (eventModel (sample_store 2)) = [sample_event 0, sample_event 1]"
    by (simp add: sample_store_def event_find_def cursor_limit_def two) (simp add: sample_event_def)
  have cnt: "event_countDocuments ''s1'' (eventModel (sample_store 2)) = 2"
    by (simp add: sample_store_def event_countDocuments_def two) (simp add: sample_event_def)
  show ?thesis
    by (simp add: getSession_found[OF sample_session_found] evs cnt)
qed

text \<open>
  Claim C6, amended to a limit of at least 1. For an existing session \<^verbatim>\<open>getSession\<close>
  returns the session, the events of the session sorted by timestamp with \<open>k\<close> skipped
  and at most \<open>l\<close> taken, the exact number of events of the session as the total, and
  \<^verbatim>\<open>hasMore\<close> and \<^verbatim>\<open>nextOffset\<close> as derived from them; it fails with
  \<^verbatim>\<open>NotFoundException\<close> when no session has the identifier. With 150 events of
  distinct timestamps, limit 50 at offset 0 gives the 50 earliest, total 150, more to come,
  next offset 50; limit 50 at offset 100 gives the 50 latest, no more to come, no next
  offset.
\<close>

theorem getSession_page:
  fixes st :: "'p store" and sid :: string
  defines "evs \<equiv> filter (\<lambda>e. Event.sessionId e = sid) (eventModel st)"
  shows
  "(sid \<notin> Session.sessionId ` set (sessionModel st) \<longrightarrow>
      getSession st sid paginationDto =
        (Inl (NotFoundException (''Session '' @ sid @ '' not found'')), st)) \<and>
   (\<forall>s. session_findOne sid (sessionModel st) = Some s \<and> 0 < l \<longrightarrow>
      (\<exists>page. getSession st sid \<lparr>PaginationDto.limit = Some l, offset = Some k\<rparr> = (Inr page, st) \<and>
         session page = s \<and>
         events page = take l (drop k (sort_key Event.timestamp evs)) \<and>
         sorted (map Event.timestamp (events page)) \<and>
         length (events page) \<le> l \<and>
         total (pagination page) = length evs \<and>
         Pagination.limit (pagination page) = l \<and>
         Pagination.offset (pagination page) = k \<and>
         hasMore (pagination page) = (k + l < length evs) \<and>
         nextOffset (pagination page) = (if k + l < length evs then Some (k + l) else None))) \<and>
   (\<forall>s. session_findOne sid (sessionModel st) = Some s \<and>
        length evs = 150 \<and> distinct (map Event.timestamp evs) \<longrightarrow>
      (\<exists>first last.
         getSession st sid \<lparr>PaginationDto.limit = Some 50, offset = Some 0\<rparr> = (Inr first, st) \<and>
         length (events first) = 50 \<and>
         set (events first) \<subseteq> set evs \<and>
         (\<forall>a \<in> set (events first). \<forall>b \<in> set evs - set (events first).
            Event.timestamp a < Event.timestamp b) \<and>
         total (pagination first) = 150 \<and>
         hasMore (pagination first) \<and>
         nextOffset (pagination first) = Some 50 \<and>
         getSession st sid \<lparr>PaginationDto.limit = Some 50, offset = Some 100\<rparr> = (Inr last, st) \<and>
         length (events last) = 50 \<and>
         set (events last) \<subseteq> set evs \<and>
         (\<forall>a \<in> set evs - set (events last). \<forall>b \<in> set (events last).
            Event.timestamp a < Event.timestamp b) \<and>
         total (pagination last) = 150 \<and>
         \<not> hasMore (pagination last) \<and>
         nextOffset (pagination last) = None))"
proof (intro conjI allI impI)
  assume "sid \<notin> Session.sessionId ` set (sessionModel st)"
  then have "session_findOne sid (sessionModel st) = None"
    by (simp add: session_findOne_None_iff)
  then show "getSession st sid paginationDto =
        (Inl (NotFoundException (''Session '' @ sid @ '' not found'')), st)"
    by (simp add: getSession_def not_found_def)
next
  fix s
  assume a: "session_findOne sid (sessionModel st) = Some s \<and> 0 < l"
  show "\<exists>page. getSession st sid \<lparr>PaginationDto.limit = Some l, offset = Some k\<rparr> = (Inr page, st) \<and>
         session page = s \<and>
         events page = take l (drop k (sort_key Event.timestamp evs)) \<and>
         sorted (map Event.timestamp (events page)) \<and>
         length (events page) \<le> l \<and>
         total (pagination page) = length evs \<and>
         Pagination.limit (pagination page) = l \<and>
         Pagination.offset (pagination page) = k \<and>
         hasMore (pagination page) = (k + l < length evs) \<and>
         nextOffset (pagination page) = (if k + l < length evs then Some (k + l) else None)"
  proof -
    have ev: "event_find sid k l (eventModel st) = take l (drop k (sort_key Event.timestamp evs))"
      using a by (simp add: event_find_def cursor_limit_def evs_def)
    have cnt: "event_countDocuments sid (eventModel st) = length evs"
      by (simp add: event_countDocuments_def evs_def)
    show ?thesis
      using a sorted_page[of Event.timestamp l k evs]
      by (simp add: getSession_found ev cnt)
  qed
next
  fix s
  assume a: "session_findOne sid (sessionModel st) = Some s \<and>
        length evs = 150 \<and> distinct (map Event.timestamp evs)"
  let ?xs = "sort_key Event.timestamp evs"
  have strict: "sorted_wrt (<) (map Event.timestamp ?xs)"
    using a by (simp add: strictly_sorted_sort_key)
  have len: "length ?xs = 150" using a by simp
  have earliest: "\<forall>a \<in> set (take 50 ?xs). \<forall>b \<in> set evs - set (take 50 ?xs).
            Event.timestamp a < Event.timestamp b"
    using before_split[OF strict, of _ 50] rest_of_take[of ?xs 50] by auto
  have latest: "\<forall>a \<in> set evs - set (drop 100 ?xs). \<forall>b \<in> set (drop 100 ?xs).
            Event.timestamp a < Event.timestamp b"
    using before_split[OF strict, of _ 100] rest_of_drop[of ?xs 100] by auto
  have sub1: "set (take 50 ?xs) \<subseteq> set evs"
    using set_take_subset[of 50 ?xs] by simp
  have sub2: "set (drop 100 ?xs) \<subseteq> set evs"
    using set_drop_subset[of 100 ?xs] by simp
  have cnt: "event_countDocuments sid (eventModel st) = 150"
    using a by (simp add: event_countDocuments_def evs_def)
  have ev1: "event_find sid 0 50 (eventModel st) = take 50 ?xs"
    by (simp add: event_find_def cursor_limit_def evs_def)
  have "length (drop 100 ?xs) = 50" using len by simp
  then have ev3: "event_find sid 100 50 (eventModel st) = drop 100 ?xs"
    by (simp add: event_find_def cursor_limit_def evs_def)
  have p1: "getSession st sid \<lparr>PaginationDto.limit = Some 50, offset = Some 0\<rparr> =
     (Inr \<lparr>session = s, events = take 50 ?xs,
           pagination = \<lparr>total = 150, limit = 50, offset = 0, hasMore = True,
                         nextOffset = Some 50\<rparr>\<rparr>, st)"
    using a by (simp add: getSession_found cnt ev1)
  have p3: "getSession st sid \<lparr>PaginationDto.limit = Some 50, offset = Some 100\<rparr> =
     (Inr \<lparr>session = s, events = drop 100 ?xs,
           pagination = \<lparr>total = 150, limit = 50, offset = 100, hasMore = False,
                         nextOffset = None\<rparr>\<rparr>, st)"
    using a by (simp add: getSession_found cnt ev3)
  show "\<exists>first last.
         getSession st sid \<lparr>PaginationDto.limit = Some 50, offset = Some 0\<rparr> = (Inr first, st) \<and>
         length (events first) = 50 \<and>
         set (events first) \<subseteq> set evs \<and>
         (\<forall>a \<in> set (events first). \<forall>b \<in> set evs - set (events first).
            Event.timestamp a < Event.timestamp b) \<and>
         total (pagination first) = 150 \<and>
         hasMore (pagination first) \<and>
         nextOffset (pagination first) = Some 50 \<and>
         getSession st sid \<lparr>PaginationDto.limit = Some 50, offset = Some 100\<rparr> = (Inr last, st) \<and>
         length (events last) = 50 \<and>
         set (events last) \<subseteq> set evs \<and>
         (\<forall>a \<in> set evs - set (events last). \<forall>b \<in> set (events last).
            Event.timestamp a < Event.timestamp b) \<and>
         total (pagination last) = 150 \<and>
         \<not> hasMore (pagination last) \<and>
         nextOffset (pagination last) = None"
    unfolding p1 p3 using earliest latest sub1 sub2 len by simp
qed

text \<open>
  At the sample store with 150 events.
\<close>

theorem getSession_page_witness:
  "session_findOne ''s1'' (sessionModel (sample_store 150)) = Some sample_session \<and>
   length (filter (\<lambda>e. Event.sessionId e = ''s1'') (eventModel (sample_store 150))) = 150 \<and>
   distinct (map Event.timestamp
     (filter (\<lambda>e. Event.sessionId e = ''s1'') (eventModel (sample_store 150)))) \<and>
   (\<exists>first last.
      getSession (sample_store 150) ''s1'' \<lparr>PaginationDto.limit = Some 50, offset = Some 0\<rparr>
        = (Inr first, sample_store 150) \<and>
      length (events first) = 50 \<and>
      total (pagination first) = 150 \<and> hasMore (pagination first) \<and>
      nextOffset (pagination first) = Some 50 \<and>
      getSession (sample_store 150) ''s1'' \<lparr>PaginationDto.limit = Some 50, offset = Some 100\<rparr>
        = (Inr last, sample_store 150) \<and>
      length (events last) = 50 \<and>
      total (pagination last) = 150 \<and> \<not> hasMore (pagination last) \<and>
      nextOffset (pagination last) = None) \<and>
   ''s2'' \<notin> Session.sessionId ` set (sessionModel (sample_store 150)) \<and>
   getSession (sample_store 150) ''s2'' \<lparr>PaginationDto.limit = Some 50, offset = Some 0\<rparr>
     = (Inl (NotFoundException ''Session s2 not found''), sample_store 150)"
proof -
  have found: "session_findOne ''s1'' (sessionModel (sample_store 150)) = Some sample_session"
    by (rule sample_session_found)
  have len: "length (filter (\<lambda>e. Event.sessionId e = ''s1'') (eventModel (sample_store 150))) = 150"
    by (simp add: sample_events_of_session)
  have dist: "distinct (map Event.timestamp
     (filter (\<lambda>e. Event.sessionId e = ''s1'') (eventModel (sample_store 150))))"
    unfolding sample_events_of_session by (rule sample_timestamps_distinct)
  have absent: "''s2'' \<notin> Session.sessionId ` set (sessionModel (sample_store 150))"
    by (simp add: sample_session_only)
  note page = getSession_page[where sid = "''s1''" and st = "sample_store 150",
      THEN conjunct2, THEN conjunct2, rule_format, of sample_session]
  note missing = getSession_page[where sid = "''s2''" and st = "sample_store 150"
      and paginationDto = "\<lparr>PaginationDto.limit = Some 50, offset = Some 0\<rparr>",
      THEN conjunct1, rule_format]
  from page[OF conjI[OF found conjI[OF len dist]]]
  obtain first last where
    "getSession (sample_store 150) ''s1'' \<lparr>PaginationDto.limit = Some 50, offset = Some 0\<rparr>
        = (Inr first, sample_store 150)"
    "length (events first) = 50"
    "total (pagination first) = 150" "hasMore (pagination first)"
    "nextOffset (pagination first) = Some 50"
    "getSession (sample_store 150) ''s1'' \<lparr>PaginationDto.limit = Some 50, offset = Some 100\<rparr>
        = (Inr last, sample_store 150)"
    "length (events last) = 50"
    "total (pagination last) = 150" "\<not> hasMore (pagination last)"
    "nextOffset (pagination last) = None"
    by blast
  then have pages: "\<exists>first last.
      getSession (sample_store 150) ''s1'' \<lparr>PaginationDto.limit = Some 50, offset = Some 0\<rparr>
        = (Inr first, sample_store 150) \<and>
      length (events first) = 50 \<and>
      total (pagination first) = 150 \<and> hasMore (pagination first) \<and>
      nextOffset (pagination first) = Some 50 \<and>
      getSession (sample_store 150) ''s1'' \<lparr>PaginationDto.limit = Some 50, offset = Some 100\<rparr>
        = (Inr last, sample_store 150) \<and>
      length (events last) = 50 \<and>
      total (pagination last) = 150 \<and> \<not> hasMore (pagination last) \<and>
      nextOffset (pagination last) = None"
    by (intro exI[of _ first] exI[of _ last] conjI)
  from missing[OF absent]
  have nf: "getSession (sample_store 150) ''s2'' \<lparr>PaginationDto.limit = Some 50, offset = Some 0\<rparr>
     = (Inl (NotFoundException ''Session s2 not found''), sample_store 150)"
    by simp
  from found len dist pages absent nf show ?thesis by (intro conjI)
qed

text \<open>
  Claim C7. The lifecycle of the sessions is kept by every request, and so by every
  sequence of requests: from a store with unique session identifiers, the identifiers stay
  unique, and every stored session is still stored with the same identifier, start and
  language, and with the same status or with completed in place of active.
\<close>

theorem session_lifecycle_invariant:
  assumes "distinct (map Session.sessionId (sessionModel st))"
  shows "distinct (map Session.sessionId (sessionModel (run st requests))) \<and>
         (\<forall>s \<in> set (sessionModel st). \<exists>s' \<in> set (sessionModel (run st requests)).
            Session.sessionId s' = Session.sessionId s \<and>
            startedAt s' = startedAt s \<and>
            Session.language s' = Session.language s \<and>
            (status s' = status s \<or> (status s = ACTIVE \<and> status s' = COMPLETED)))"
  using sessions_evolve_run[OF assms, of requests]
  by (simp add: sessions_evolve_def session_evolves_def)

text \<open>
  At the sample store: after another session is created, \<^verbatim>\<open>s1\<close> is completed and
  then created again in German, \<^verbatim>\<open>s1\<close> is still the English session started at
  1000.
\<close>

theorem session_lifecycle_invariant_witness:
  "distinct (map Session.sessionId (sessionModel (sample_store 0))) \<and>
   distinct (map Session.sessionId (sessionModel (run (sample_store 0)
     [PostSession 5000 None \<lparr>CreateSessionDto.sessionId = ''s2'', language = ''fr''\<rparr>,
      PostComplete 7000 ''s1'',
      PostSession 8000 None \<lparr>CreateSessionDto.sessionId = ''s1'', language = ''de''\<rparr>]))) \<and>
   (\<exists>s' \<in> set (sessionModel (run (sample_store 0)
     [PostSession 5000 None \<lparr>CreateSessionDto.sessionId = ''s2'', language = ''fr''\<rparr>,
      PostComplete 7000 ''s1'',
      PostSession 8000 None \<lparr>CreateSessionDto.sessionId = ''s1'', language = ''de''\<rparr>])).
      Session.sessionId s' = ''s1'' \<and> startedAt s' = 1000 \<and> Session.language s' = ''en'')"
proof -
  have unique: "distinct (map Session.sessionId (sessionModel (sample_store 0)))"
    by (simp add: sample_store_def)
  have first: "sample_session \<in> set (sessionModel (sample_store 0))"
    by (simp add: sample_store_def)
  note inv = session_lifecycle_invariant[OF unique, where requests =
     "[PostSession 5000 None \<lparr>CreateSessionDto.sessionId = ''s2'', language = ''fr''\<rparr>,
      PostComplete 7000 ''s1'',
      PostSession 8000 None \<lparr>CreateSessionDto.sessionId = ''s1'', language = ''de''\<rparr>]"]
  from inv[THEN conjunct2, rule_format, OF first]
  have kept: "\<exists>s' \<in> set (sessionModel (run (sample_store 0)
     [PostSession 5000 None \<lparr>CreateSessionDto.sessionId = ''s2'', language = ''fr''\<rparr>,
      PostComplete 7000 ''s1'',
      PostSession 8000 None \<lparr>CreateSessionDto.sessionId = ''s1'', language = ''de''\<rparr>])).
      Session.sessionId s' = ''s1'' \<and> startedAt s' = 1000 \<and> Session.language s' = ''en''"
    by (auto simp: sample_session_def)
  from unique inv[THEN conjunct1] kept show ?thesis by (intro conjI)
qed

text \<open>
  Claim C8, as stated, fails: \<^verbatim>\<open>getSession\<close> has no maximum. With 150 events stored,
  a limit of 150 is handed to the cursor as it is, all 150 events are returned and the
  pagination data report the limit 150.
\<close>

theorem getSession_limit_not_clamped_counterexample:
  "getSession (sample_store 150) ''s1'' \<lparr>PaginationDto.limit = Some 150, offset = Some 0\<rparr>
     = (Inr \<lparr>session = sample_session,
             events = map sample_event [0..<150],
             pagination = \<lparr>total = 150, limit = 150, offset = 0, hasMore = False,
                           nextOffset = None\<rparr>\<rparr>,
        sample_store 150) \<and>
   length (map sample_event [0..<150]) = 150"
proof -
  have "sorted (map Event.timestamp (map sample_event [0..<150]))"
    by (simp add: comp_def sample_event_def sorted_map sorted_wrt_iff_nth_less)
  then have "sort_key Event.timestamp (map sample_event [0..<150]) = map sample_event [0..<150]"
    by (rule sort_key_id_if_sorted)
  then have evs: "event_find ''s1'' 0 150 (eventModel (sample_store 150))
      = map sample_event [0..<150]"
    by (simp add: event_find_def cursor_limit_def sample_events_of_session)
  have cnt: "event_countDocuments ''s1'' (eventModel (sample_store 150)) = 150"
    by (simp add: event_countDocuments_def sample_events_of_session)
  show ?thesis
    by (simp add: getSession_found[OF sample_session_found] evs cnt)
qed

text \<open>
  Claim C8, amended. For an existing session \<^verbatim>\<open>getSession\<close> uses the limit and the
  offset of the request as they are, a limit above 100 too, with 50 for an omitted limit
  and 0 for an omitted offset: these are the limit and the offset it reports, and for a
  limit other than 0 the page is that many events at most, taken after the offset from the
  events of the session in the order of their timestamps. An offset at or beyond the number
  of events of the session gives no events, for every limit, and the total is that exact
  number always.
\<close>

theorem pagination_bounds:
  fixes st :: "'p store" and sid :: string
  defines "evs \<equiv> filter (\<lambda>e. Event.sessionId e = sid) (eventModel st)"
  assumes "session_findOne sid (sessionModel st) = Some s"
  shows
  "\<exists>page. getSession st sid paginationDto = (Inr page, st) \<and>
      session page = s \<and>
      Pagination.limit (pagination page) =
        (case PaginationDto.limit paginationDto of None \<Rightarrow> 50 | Some l \<Rightarrow> l) \<and>
      Pagination.offset (pagination page) =
        (case PaginationDto.offset paginationDto of None \<Rightarrow> 0 | Some k \<Rightarrow> k) \<and>
      total (pagination page) = length evs \<and>
      (Pagination.limit (pagination page) \<noteq> 0 \<longrightarrow>
         events page =
           take (Pagination.limit (pagination page))
             (drop (Pagination.offset (pagination page)) (sort_key Event.timestamp evs))) \<and>
      (length evs \<le> Pagination.offset (pagination page) \<longrightarrow> events page = [])"
proof -
  define l where "l = (case PaginationDto.limit paginationDto of None \<Rightarrow> 50 | Some l \<Rightarrow> l)"
  define k where "k = (case PaginationDto.offset paginationDto of None \<Rightarrow> 0 | Some k \<Rightarrow> k)"
  let ?page = "\<lparr>session = s,
          events = event_find sid k l (eventModel st),
          pagination =
            \<lparr>total = event_countDocuments sid (eventModel st),
             limit = l, offset = k,
             hasMore = (k + l < event_countDocuments sid (eventModel st)),
             nextOffset = (if k + l < event_countDocuments sid (eventModel st)
                           then Some (k + l) else None)\<rparr>\<rparr>"
  have run: "getSession st sid paginationDto = (Inr ?page, st)"
    unfolding getSession_def Let_def l_def k_def using assms(2) by simp
  have cnt: "event_countDocuments sid (eventModel st) = length evs"
    by (simp add: event_countDocuments_def evs_def)
  have limited: "l \<noteq> 0 \<longrightarrow>
      event_find sid k l (eventModel st) = take l (drop k (sort_key Event.timestamp evs))"
    by (simp add: event_find_def cursor_limit_def evs_def)
  have beyond: "length evs \<le> k \<longrightarrow> event_find sid k l (eventModel st) = []"
    by (simp add: event_find_def cursor_limit_def evs_def)
  show ?thesis
    unfolding l_def[symmetric] k_def[symmetric]
    using run cnt limited beyond by (intro exI[of _ ?page]) simp
qed

text \<open>
  At the sample store with three events: without limit and offset the three events are
  one page with limit 50 and offset 0; with limit 150 at offset 5 the page is empty, the
  limit reported is 150 and the total is 3.
\<close>

theorem pagination_bounds_witness:
  "session_findOne ''s1'' (sessionModel (sample_store 3)) = Some sample_session \<and>
   (\<exists>page. getSession (sample_store 3) ''s1'' \<lparr>PaginationDto.limit = None, offset = None\<rparr>
       = (Inr page, sample_store 3) \<and>
      Pagination.limit (pagination page) = 50 \<and> Pagination.offset (pagination page) = 0 \<and>
      total (pagination page) = 3 \<and> length (events page) = 3) \<and>
   (\<exists>page. getSession (sample_store 3) ''s1'' \<lparr>PaginationDto.limit = Some 150, offset = Some 5\<rparr>
       = (Inr page, sample_store 3) \<and>
      Pagination.limit (pagination page) = 150 \<and> Pagination.offset (pagination page) = 5 \<and>
      total (pagination page) = 3 \<and> events page = [])"
proof -
  have found: "session_findOne ''s1'' (sessionModel (sample_store 3)) = Some sample_session"
    by (rule sample_session_found)
  note defaults = pagination_bounds[OF found, where paginationDto =
      "\<lparr>PaginationDto.limit = None, offset = None\<rparr>"]
  note beyond = pagination_bounds[OF found, where paginationDto =
      "\<lparr>PaginationDto.limit = Some 150, offset = Some 5\<rparr>"]
  from defaults obtain page where
    "getSession (sample_store 3) ''s1'' \<lparr>PaginationDto.limit = None, offset = None\<rparr>
       = (Inr page, sample_store 3)"
    "Pagination.limit (pagination page) = 50" "Pagination.offset (pagination page) = 0"
    "total (pagination page) = 3"
    "events page = take 50 (drop 0 (sort_key Event.timestamp (map sample_event [0..<3])))"
    by (auto simp: sample_events_of_session)
  then have a: "\<exists>page. getSession (sample_store 3) ''s1''
        \<lparr>PaginationDto.limit = None, offset = None\<rparr> = (Inr page, sample_store 3) \<and>
      Pagination.limit (pagination page) = 50 \<and> Pagination.offset (pagination page) = 0 \<and>
      total (pagination page) = 3 \<and> length (events page) = 3"
    by (intro exI[of _ page]) simp
  from beyond obtain page' where
    "getSession (sample_store 3) ''s1'' \<lparr>PaginationDto.limit = Some 150, offset = Some 5\<rparr>
       = (Inr page', sample_store 3)"
    "Pagination.limit (pagination page') = 150" "Pagination.offset (pagination page') = 5"
    "total (pagination page') = 3" "events page' = []"
    by (auto simp: sample_events_of_session)
  then have b: "\<exists>page. getSession (sample_store 3) ''s1''
        \<lparr>PaginationDto.limit = Some 150, offset = Some 5\<rparr> = (Inr page, sample_store 3) \<and>
      Pagination.limit (pagination page) = 150 \<and> Pagination.offset (pagination page) = 5 \<and>
      total (pagination page) = 3 \<and> events page = []"
    by (intro exI[of _ page']) simp
  from found a b show ?thesis by (intro conjI)
qed

text \<open>
  Claim C9. \<^verbatim>\<open>getSession\<close> only reads: the store after the call is the store before
  it, for every identifier, limit and offset, found or not.
\<close>

theorem getSession_read_only: "snd (getSession st sid paginationDto) = st"
  by (cases "session_findOne sid (sessionModel st)") (simp_all add: getSession_def Let_def)

text \<open>
  At the sample store, for a stored and for an unknown session.
\<close>

theorem getSession_read_only_witness:
  "snd (getSession (sample_store 3) ''s1'' \<lparr>PaginationDto.limit = Some 2, offset = None\<rparr>)
     = sample_store 3 \<and>
   snd (getSession (sample_store 3) ''s2'' \<lparr>PaginationDto.limit = None, offset = None\<rparr>)
     = sample_store 3"
  using getSession_read_only[of "sample_store 3" "''s1''"
      "\<lparr>PaginationDto.limit = Some 2, offset = None\<rparr>"]
    getSession_read_only[of "sample_store 3" "''s2''"
      "\<lparr>PaginationDto.limit = None, offset = None\<rparr>"]
  by simp

text \<open>
  Claim C10. \<^verbatim>\<open>addEvent\<close> never reports \<^verbatim>\<open>Duplicate key error but event not
  found\<close>, provided a duplicate-key error comes from the unique index only: when
  \<^verbatim>\<open>create\<close> is rejected by the index, an event with that pair of identifiers is
  stored, and since no request deletes an event, a read of that pair finds that same event
  after any further requests.
\<close>

theorem addEvent_duplicate_reread_finds:
  "((\<forall>error. fault = Some error \<longrightarrow> code error \<noteq> Some 11000) \<longrightarrow>
      fst (addEvent st now fault sid dto) \<noteq>
        Inl (InternalServerErrorException ''Duplicate key error but event not found'')) \<and>
   (fst (event_create None doc (eventModel st)) = Inl duplicate_key \<longrightarrow>
      (\<exists>e. \<forall>requests.
         event_findOne (Event.sessionId doc) (Event.eventId doc) (eventModel (run st requests))
           = Some e))"
proof (intro conjI impI)
  assume served: "\<forall>error. fault = Some error \<longrightarrow> code error \<noteq> Some 11000"
  show "fst (addEvent st now fault sid dto) \<noteq>
        Inl (InternalServerErrorException ''Duplicate key error but event not found'')"
  proof (cases fault)
    case None
    then show ?thesis
      by (auto simp: addEvent_def event_create_def not_found_def duplicate_key_def
            validation_error_def split: option.splits)
  next
    case (Some error)
    with served have "code error \<noteq> Some 11000" by simp
    with Some show ?thesis
      by (simp add: addEvent_def event_create_def not_found_def validation_error_def
            split: option.split)
  qed
next
  assume "fst (event_create None doc (eventModel st)) = Inl duplicate_key"
  then obtain e where "event_findOne (Event.sessionId doc) (Event.eventId doc) (eventModel st) = Some e"
    by (auto simp: event_create_def validation_error_def duplicate_key_def
          split: option.splits if_splits)
  then show "\<exists>e. \<forall>requests.
         event_findOne (Event.sessionId doc) (Event.eventId doc) (eventModel (run st requests))
           = Some e"
    by (blast intro: event_findOne_run)
qed

text \<open>
  At the sample store with one event, whose creation a second time is rejected.
\<close>

theorem addEvent_duplicate_reread_finds_witness:
  "code (MongoError None) \<noteq> Some 11000 \<and>
   fst (addEvent (sample_store 1) 9000 (Some (MongoError None)) ''s1''
      \<lparr>CreateEventDto.eventId = ''e'', type = USER_LEFT, payload = ''bye'', timestamp = Some 8000\<rparr>)
     \<noteq> Inl (InternalServerErrorException ''Duplicate key error but event not found'') \<and>
   fst (addEvent (sample_store 1) 9000 None ''s1''
      \<lparr>CreateEventDto.eventId = ''e'', type = USER_LEFT, payload = ''bye'', timestamp = Some 8000\<rparr>)
     \<noteq> Inl (InternalServerErrorException ''Duplicate key error but event not found'') \<and>
   fst (event_create None (sample_event 0) (eventModel (sample_store 1))) = Inl duplicate_key \<and>
   (\<exists>e. \<forall>requests.
      event_findOne (Event.sessionId (sample_event 0)) (Event.eventId (sample_event 0))
        (eventModel (run (sample_store 1) requests)) = Some e)"
proof -
  have other: "code (MongoError None) \<noteq> Some 11000"
    by simp
  then have failing:
    "\<forall>error. Some (MongoError None) = Some error \<longrightarrow> code error \<noteq> Some 11000"
    by simp
  have served: "\<forall>error. (None :: MongoError option) = Some error \<longrightarrow> code error \<noteq> Some 11000"
    by simp
  have rejected: "fst (event_create None (sample_event 0) (eventModel (sample_store 1)))
      = Inl duplicate_key"
    by (simp add: event_create_def event_findOne_def sample_store_def sample_event_def)
  note lost = addEvent_duplicate_reread_finds[where st = "sample_store 1"
      and fault = "Some (MongoError None)"
      and now = 9000 and sid = "''s1''" and doc = "sample_event 0" and dto =
      "\<lparr>CreateEventDto.eventId = ''e'', type = USER_LEFT, payload = ''bye'', timestamp = Some 8000\<rparr>"]
  note reread = addEvent_duplicate_reread_finds[where st = "sample_store 1" and fault = None
      and now = 9000 and sid = "''s1''" and doc = "sample_event 0" and dto =
      "\<lparr>CreateEventDto.eventId = ''e'', type = USER_LEFT, payload = ''bye'', timestamp = Some 8000\<rparr>"]
  from lost[THEN conjunct1] failing
  have a: "fst (addEvent (sample_store 1) 9000 (Some (MongoError None)) ''s1''
      \<lparr>CreateEventDto.eventId = ''e'', type = USER_LEFT, payload = ''bye'', timestamp = Some 8000\<rparr>)
     \<noteq> Inl (InternalServerErrorException ''Duplicate key error but event not found'')"
    by (rule mp)
  from reread[THEN conjunct1] served
  have b: "fst (addEvent (sample_store 1) 9000 None ''s1''
      \<lparr>CreateEventDto.eventId = ''e'', type = USER_LEFT, payload = ''bye'', timestamp = Some 8000\<rparr>)
     \<noteq> Inl (InternalServerErrorException ''Duplicate key error but event not found'')"
    by (rule mp)
  from reread[THEN conjunct2] rejected
  have c: "\<exists>e. \<forall>requests.
      event_findOne (Event.sessionId (sample_event 0)) (Event.eventId (sample_event 0))
        (eventModel (run (sample_store 1) requests)) = Some e"
    by (rule mp)
  from other a b rejected c show ?thesis by (intro conjI)
qed

end
